theory Spec2Isabelle
  imports Main "HOL-Library.Word" "HOL-Library.Finite_Map"
begin

section \<open>The in-memory repository of \<open>internal/repository/memory.go\<close>\<close>

text \<open>
  The store is a Go map from path strings to byte slices together with a scheme. A Go
  map is finite and unordered, so \<open>Data\<close> is a finite map. A blob is a list of bytes.
  Cursors are Go \<open>int\<close>s that start at 0 and are only ever incremented, so they are
  naturals here.

  A stream handle holds a pointer \<open>repo\<close> to its store. The pointer is modelled by
  explicit state passing: every method of a handle takes the store the handle points to
  and returns it (updated where the method writes through the pointer), next to the
  updated handle. Every method of the store itself takes the store and returns it as
  well, so that what a call leaves unchanged can be stated.
\<close>

type_synonym byte = "8 word"

record InMemoryRepository =
  Data :: "(string, byte list) fmap"
  scheme :: string

record nodeReaderWriter =
  path :: string
  writing :: bool
  readCursor :: nat
  writeCursor :: nat

text \<open>
  Modelled from the spec: \<open>fyne.URI\<close> is an interface declared outside
  \<open>memory.go\<close>. The store only ever calls \<open>u.Path()\<close> on it; a URI value is the
  pair of its scheme and its path.
\<close>

record URI =
  Scheme :: string
  Path :: string

text \<open>
  The errors the code builds with \<open>fmt.Errorf\<close>, named as in the specification's
  taxonomy and carrying the path that is formatted into the message:
  \<open>invalid path '%s'\<close> is \<open>InvalidPath\<close>; \<open>no such path '%s' in InMemoryRepository\<close>
  (from \<open>Reader\<close>) and \<open>path '%s' not present in InMemoryRepository\<close> (from \<open>Read\<close>)
  are \<open>NotFound\<close>; \<open>io.EOF\<close> is \<open>EOF\<close>. \<open>URIError\<close> stands for whatever error the
  external URI parser reports.
\<close>

datatype error = InvalidPath string | NotFound string | EOF | URIError string

text \<open>A Go run-time panic: an index expression out of range.\<close>

datatype panic = IndexOutOfRange

subsection \<open>Construction and the operations of the store\<close>

definition NewInMemoryRepository :: "string \<Rightarrow> InMemoryRepository" where
  "NewInMemoryRepository sch = \<lparr>Data = fmempty, scheme = sch\<rparr>"

definition Exists :: "InMemoryRepository \<Rightarrow> URI \<Rightarrow> (error + bool) \<times> InMemoryRepository" where
  "Exists m u =
     (if Path u = [] then (Inl (InvalidPath (Path u)), m)
      else (Inr (Path u |\<in>| fmdom (Data m)), m))"

definition Reader :: "InMemoryRepository \<Rightarrow> URI \<Rightarrow> (error + nodeReaderWriter) \<times> InMemoryRepository" where
  "Reader m u =
     (if Path u = [] then (Inl (InvalidPath (Path u)), m)
      else if Path u |\<notin>| fmdom (Data m) then (Inl (NotFound (Path u)), m)
      else (Inr \<lparr>path = Path u, writing = False, readCursor = 0, writeCursor = 0\<rparr>, m))"

definition CanRead :: "InMemoryRepository \<Rightarrow> URI \<Rightarrow> (error + bool) \<times> InMemoryRepository" where
  "CanRead m u =
     (if Path u = [] then (Inl (InvalidPath (Path u)), m)
      else (Inr (Path u |\<in>| fmdom (Data m)), m))"

definition Writer :: "InMemoryRepository \<Rightarrow> URI \<Rightarrow> (error + nodeReaderWriter) \<times> InMemoryRepository" where
  "Writer m u =
     (if Path u = [] then (Inl (InvalidPath (Path u)), m)
      else (Inr \<lparr>path = Path u, writing = False, readCursor = 0, writeCursor = 0\<rparr>, m))"

definition CanWrite :: "InMemoryRepository \<Rightarrow> URI \<Rightarrow> (error + bool) \<times> InMemoryRepository" where
  "CanWrite m u =
     (if Path u = [] then (Inl (InvalidPath (Path u)), m)
      else (Inr True, m))"

text \<open>\<open>Delete\<close> returns Go's \<open>error\<close>, which is always \<open>nil\<close> (\<open>None\<close>).\<close>

definition Delete :: "InMemoryRepository \<Rightarrow> URI \<Rightarrow> error option \<times> InMemoryRepository" where
  "Delete m u =
     (if Path u |\<in>| fmdom (Data m)
      then (None, m\<lparr>Data := fmdrop (Path u) (Data m)\<rparr>)
      else (None, m))"

subsection \<open>Closing a handle\<close>

definition Close ::
  "nodeReaderWriter \<Rightarrow> InMemoryRepository \<Rightarrow> error option \<times> nodeReaderWriter \<times> InMemoryRepository" where
  "Close n m = (None, n\<lparr>readCursor := 0, writeCursor := 0, writing := False\<rparr>, m)"

subsection \<open>Reading through a handle\<close>

text \<open>
  The copy loop of \<open>Read\<close>: \<open>j\<close> indexes the caller's buffer \<open>p\<close>, \<open>rc\<close> is
  \<open>n.readCursor\<close>. The buffer is a Go slice that is written in place; the model returns
  the buffer after the call.
\<close>

function Read_loop ::
  "byte list \<Rightarrow> byte list \<Rightarrow> nat \<Rightarrow> nat \<Rightarrow> nat \<Rightarrow> byte list \<times> nat \<times> nat \<times> nat" where
  "Read_loop data p j rc count =
     (if j < length p \<and> rc < length data
      then Read_loop data (p[j := data ! rc]) (Suc j) (Suc rc) (Suc count)
      else (p, j, rc, count))"
  by pat_completeness auto
termination
  by (relation "measure (\<lambda>(data, p, j, rc, count). length p - j)") auto

declare Read_loop.simps [simp del]

definition Read ::
  "nodeReaderWriter \<Rightarrow> byte list \<Rightarrow> InMemoryRepository \<Rightarrow>
     (nat \<times> error option) \<times> byte list \<times> nodeReaderWriter \<times> InMemoryRepository" where
  "Read n p m =
     (case fmlookup (Data m) (path n) of
        None \<Rightarrow> ((0, Some (NotFound (path n))), p, n, m)
      | Some data \<Rightarrow>
          (case Read_loop data p 0 (readCursor n) 0 of
             (p', j, rc, count) \<Rightarrow>
               ((count, if rc \<ge> length data then Some EOF else None),
                p', n\<lparr>readCursor := rc\<rparr>, m)))"

subsection \<open>Writing through a handle\<close>

text \<open>
  A Go map index expression \<open>m[k]\<close> yields the zero value, the nil slice of length 0,
  for a key that is absent.
\<close>

definition index_or_nil :: "(string, byte list) fmap \<Rightarrow> string \<Rightarrow> byte list" where
  "index_or_nil D k = (case fmlookup D k of None \<Rightarrow> [] | Some b \<Rightarrow> b)"

text \<open>
  The copy loop of \<open>Write\<close>: \<open>wc\<close> is \<open>n.writeCursor\<close>, \<open>D\<close> is \<open>n.repo.Data\<close>.
  \<open>len(n.repo.Data)\<close> is the number of keys of the map. Both index expressions of the
  element store are bounds-checked as Go does; a failed check stops the loop with a
  panic, and the state reached so far is returned with it.
\<close>

function Write_loop ::
  "string \<Rightarrow> byte list \<Rightarrow> nat \<Rightarrow> nat \<Rightarrow> nat \<Rightarrow> (string, byte list) fmap \<Rightarrow>
     panic option \<times> nat \<times> nat \<times> (string, byte list) fmap" where
  "Write_loop pth p start wc count D =
     (if wc < start + length p
      then
        (let D1 = (if fcard (fmdom D) < wc + length p
                   then fmupd pth (index_or_nil D pth @ [0]) D else D)
         in if wc < length (index_or_nil D1 pth) \<and> start \<le> wc \<and> wc - start < length p
            then Write_loop pth p start (Suc wc) (Suc count)
                   (fmupd pth ((index_or_nil D1 pth)[wc := p ! (wc - start)]) D1)
            else (Some IndexOutOfRange, wc, count, D1))
      else (None, wc, count, D))"
  by pat_completeness auto
termination
  by (relation "measure (\<lambda>(pth, p, start, wc, count, D). start + length p - wc)") auto

declare Write_loop.simps [simp del]

definition Write ::
  "nodeReaderWriter \<Rightarrow> byte list \<Rightarrow> InMemoryRepository \<Rightarrow>
     (panic + nat \<times> error option) \<times> nodeReaderWriter \<times> InMemoryRepository" where
  "Write n p m =
     (let D0 = Data m;
          D1 = (if path n |\<in>| fmdom D0 then D0 else fmupd (path n) [] D0);
          D2 = (if \<not> writing n then fmupd (path n) [] D1 else D1);
          n1 = (if \<not> writing n then n\<lparr>writing := True\<rparr> else n)
      in case Write_loop (path n) p (writeCursor n) (writeCursor n) 0 D2 of
           (pn, wc, count, D3) \<Rightarrow>
             (case pn of
                Some e \<Rightarrow> (Inl e, n1\<lparr>writeCursor := wc\<rparr>, m\<lparr>Data := D3\<rparr>)
              | None \<Rightarrow> (Inr (count, None), n1\<lparr>writeCursor := wc\<rparr>, m\<lparr>Data := D3\<rparr>)))"

subsection \<open>Listing\<close>

text \<open>
  Go's \<open>strings.Split(s, "/")\<close> and \<open>strings.HasPrefix(s, prefix)\<close> from the standard
  library, for a separator of one character: the pieces between the separators, one
  more than there are separators.
\<close>

fun Split :: "string \<Rightarrow> char \<Rightarrow> string list" where
  "Split [] sep = [[]]"
| "Split (c # cs) sep =
     (if c = sep then [] # Split cs sep
      else (case Split cs sep of [] \<Rightarrow> [[c]] | w # ws \<Rightarrow> (c # w) # ws))"

definition HasPrefix :: "string \<Rightarrow> string \<Rightarrow> bool" where
  "HasPrefix s pre = (length pre \<le> length s \<and> take (length pre) s = pre)"

text \<open>
  The loop \<open>for p := range m.Data\<close> of \<open>List\<close>. Go visits the keys of a map in an
  unspecified order; the order of the visit is the argument \<open>ks\<close>. The external
  \<open>storage.ParseURI\<close> is the argument \<open>parse\<close>. \<open>p[len(p)-1]\<close> panics on an empty key.
\<close>

fun List_loop ::
  "(string \<Rightarrow> error + URI) \<Rightarrow> string \<Rightarrow> string \<Rightarrow> string list \<Rightarrow> string list \<Rightarrow> URI list \<Rightarrow>
     panic + URI list \<times> error option" where
  "List_loop parse sch prefix prefixSplit [] listing = Inr (listing, None)"
| "List_loop parse sch prefix prefixSplit (p # ps) listing =
     (let pSplit = Split p CHR ''/'';
          ncomp = int (length pSplit)
      in if p = [] then Inl IndexOutOfRange
         else
           (let ncomp = (if last p = CHR ''/'' then ncomp - 1 else ncomp)
            in if HasPrefix p prefix \<and> ncomp = int (length prefixSplit)
               then (case parse (sch @ ''://'' @ p) of
                       Inl err \<Rightarrow> Inr ([], Some err)
                     | Inr uri \<Rightarrow> List_loop parse sch prefix prefixSplit ps (listing @ [uri]))
               else List_loop parse sch prefix prefixSplit ps listing))"

text \<open>\<open>ks\<close> is an order in which \<open>range D\<close> may visit the keys: each key once.\<close>

definition range_order :: "(string, byte list) fmap \<Rightarrow> string list \<Rightarrow> bool" where
  "range_order D ks = (distinct ks \<and> fset_of_list ks = fmdom D)"

definition List ::
  "(string \<Rightarrow> error + URI) \<Rightarrow> string list \<Rightarrow> InMemoryRepository \<Rightarrow> URI \<Rightarrow>
     (panic + URI list \<times> error option) \<times> InMemoryRepository" where
  "List parse ks m u =
     (let prefix = Path u
      in if prefix = [] then (Inl IndexOutOfRange, m)
         else
           (let prefix = (if last prefix \<noteq> CHR ''/'' then prefix @ ''/'' else prefix);
                prefixSplit = Split prefix CHR ''/''
            in (List_loop parse (scheme m) prefix prefixSplit ks [], m)))"

subsection \<open>The URI parser and the listing criterion\<close>

text \<open>
  Modelled from the spec: \<open>storage.ParseURI\<close> is outside \<open>memory.go\<close>; the
  specification gives it as \<open>parseURI(text) \<rightarrow> URI | error\<close>, which builds a URI value
  from a \<open>scheme://path\<close> string. \<open>List\<close> takes the parser as an argument; this
  definition is one parser of that shape, splitting the text at the first \<open>://\<close>, and
  is used to run \<open>List\<close> on concrete stores.
\<close>

fun split_scheme :: "string \<Rightarrow> string \<Rightarrow> (string \<times> string) option" where
  "split_scheme acc (a # b # c # rest) =
     (if a = CHR '':'' \<and> b = CHR ''/'' \<and> c = CHR ''/'' then Some (rev acc, rest)
      else split_scheme (a # acc) (b # c # rest))"
| "split_scheme acc rest = None"

definition ParseURI :: "string \<Rightarrow> error + URI" where
  "ParseURI s =
     (case split_scheme [] s of
        None \<Rightarrow> Inl (URIError s)
      | Some (sch, pth) \<Rightarrow> Inr \<lparr>Scheme = sch, Path = pth\<rparr>)"

text \<open>
  Modelled from the spec: the specification leaves open which texts \<open>parseURI\<close>
  rejects. This parser rejects a text that holds a space and is \<open>ParseURI\<close> on every
  other text; it is used to run \<open>List\<close> with a parser that fails on a stored key.
\<close>

definition ParseURI_no_space :: "string \<Rightarrow> error + URI" where
  "ParseURI_no_space s = (if CHR 0x20 \<in> set s then Inl (URIError s) else ParseURI s)"

text \<open>
  The prefix in the words of the claim on listing: the path normalized to end with
  exactly one trailing separator, that is, with every trailing separator removed and one
  appended.
\<close>

definition normalized_prefix :: "string \<Rightarrow> string" where
  "normalized_prefix pth = rev (dropWhile (\<lambda>c. c = CHR ''/'') (rev pth)) @ ''/''"

text \<open>
  The criterion of the specification for a stored key to be listed, in its words, with
  the prefix as the code forms it: the prefix is the path with a separator appended
  unless it already ends with one; the component count of a string is
  the number of its \<open>/\<close>-delimited pieces; the count of a key discounts a single
  trailing separator; a key qualifies iff it starts with the prefix and its count equals
  the count of the prefix.
\<close>

definition list_prefix :: "string \<Rightarrow> string" where
  "list_prefix pth = (if pth \<noteq> [] \<and> last pth = CHR ''/'' then pth else pth @ ''/'')"

definition component_count :: "string \<Rightarrow> nat" where
  "component_count s = length (Split s CHR ''/'')"

definition key_component_count :: "string \<Rightarrow> nat" where
  "key_component_count k =
     (if k \<noteq> [] \<and> last k = CHR ''/'' then component_count k - 1 else component_count k)"

definition is_listed :: "string \<Rightarrow> string \<Rightarrow> bool" where
  "is_listed prefix k = (HasPrefix k prefix \<and> key_component_count k = component_count prefix)"

section \<open>Properties\<close>

subsection \<open>Empty paths\<close>

text \<open>
  Claim C6. \<open>Exists\<close>, \<open>CanRead\<close>, \<open>CanWrite\<close>, \<open>Reader\<close> and \<open>Writer\<close>, called
  on a URI whose path is the empty string, each fail with \<open>InvalidPath\<close>, and the
  store (so also its \<open>Data\<close> mapping) is the same after the failing call. This holds
  in every store, also one that holds an entry under the empty key.
\<close>

theorem empty_path_rejected:
  assumes "Path u = []"
  shows "Exists m u = (Inl (InvalidPath []), m)
       \<and> CanRead m u = (Inl (InvalidPath []), m)
       \<and> CanWrite m u = (Inl (InvalidPath []), m)
       \<and> Reader m u = (Inl (InvalidPath []), m)
       \<and> Writer m u = (Inl (InvalidPath []), m)
       \<and> Data (snd (Exists m u)) = Data m
       \<and> Data (snd (CanRead m u)) = Data m
       \<and> Data (snd (CanWrite m u)) = Data m
       \<and> Data (snd (Reader m u)) = Data m
       \<and> Data (snd (Writer m u)) = Data m"
  using assms by (simp add: Exists_def CanRead_def CanWrite_def Reader_def Writer_def)

theorem empty_path_rejected_witness:
  "Path \<lparr>Scheme = ''mem'', Path = []\<rparr> = []
   \<and> Exists \<lparr>Data = fmupd [] [7] (fmupd ''/a'' [1, 2] fmempty), scheme = ''mem''\<rparr>
        \<lparr>Scheme = ''mem'', Path = []\<rparr>
      = (Inl (InvalidPath []), \<lparr>Data = fmupd [] [7] (fmupd ''/a'' [1, 2] fmempty), scheme = ''mem''\<rparr>)
   \<and> Reader \<lparr>Data = fmupd [] [7] (fmupd ''/a'' [1, 2] fmempty), scheme = ''mem''\<rparr>
        \<lparr>Scheme = ''mem'', Path = []\<rparr>
      = (Inl (InvalidPath []), \<lparr>Data = fmupd [] [7] (fmupd ''/a'' [1, 2] fmempty), scheme = ''mem''\<rparr>)
   \<and> Writer \<lparr>Data = fmupd [] [7] (fmupd ''/a'' [1, 2] fmempty), scheme = ''mem''\<rparr>
        \<lparr>Scheme = ''mem'', Path = []\<rparr>
      = (Inl (InvalidPath []), \<lparr>Data = fmupd [] [7] (fmupd ''/a'' [1, 2] fmempty), scheme = ''mem''\<rparr>)"
  using empty_path_rejected
    [of "\<lparr>Scheme = ''mem'', Path = []\<rparr>"
        "\<lparr>Data = fmupd [] [7] (fmupd ''/a'' [1, 2] fmempty), scheme = ''mem''\<rparr>"]
  by simp

text \<open>
  Claim C9. \<open>List\<close>, called on a URI whose path is the empty string, does not return
  an \<open>InvalidPath\<close> error: the index expression \<open>prefix[len(prefix)-1]\<close> is out of
  range and the call panics, whatever the store holds.
\<close>

theorem List_empty_path_panics:
  assumes "Path u = []"
  shows "List parse ks m u = (Inl IndexOutOfRange, m)
       \<and> (\<forall>us e. fst (List parse ks m u) \<noteq> Inr (us, Some (InvalidPath e)))"
  using assms by (simp add: List_def)

theorem List_empty_path_panics_witness:
  "Path \<lparr>Scheme = ''mem'', Path = []\<rparr> = []
   \<and> List (\<lambda>s. Inr \<lparr>Scheme = ''mem'', Path = drop 6 s\<rparr>) [''/a'']
        \<lparr>Data = fmupd ''/a'' [1, 2] fmempty, scheme = ''mem''\<rparr> \<lparr>Scheme = ''mem'', Path = []\<rparr>
      = (Inl IndexOutOfRange, \<lparr>Data = fmupd ''/a'' [1, 2] fmempty, scheme = ''mem''\<rparr>)"
  using List_empty_path_panics
    [of "\<lparr>Scheme = ''mem'', Path = []\<rparr>" "\<lambda>s. Inr \<lparr>Scheme = ''mem'', Path = drop 6 s\<rparr>" "[''/a'']"
        "\<lparr>Data = fmupd ''/a'' [1, 2] fmempty, scheme = ''mem''\<rparr>"]
  by simp

text \<open>
  Claim C10, as amended. \<open>Delete\<close> performs no path validation: called on a URI with
  an empty path it returns no error, where \<open>Exists\<close> fails with \<open>InvalidPath\<close>. It leaves
  the store unchanged when no entry is stored under the empty key, and removes the entry
  stored under the empty key when there is one.
\<close>

theorem Delete_empty_path_unvalidated:
  assumes "Path u = []"
  shows "fst (Delete m u) = None
       \<and> ([] |\<notin>| fmdom (Data m) \<longrightarrow> snd (Delete m u) = m)
       \<and> ([] |\<in>| fmdom (Data m) \<longrightarrow> Data (snd (Delete m u)) = fmdrop [] (Data m))
       \<and> fst (Exists m u) = Inl (InvalidPath [])"
  using assms by (simp add: Delete_def Exists_def)

theorem Delete_empty_path_unvalidated_witness:
  "Path \<lparr>Scheme = ''mem'', Path = []\<rparr> = []
   \<and> [] |\<notin>| fmdom (Data \<lparr>Data = fmupd ''/a'' [1, 2] fmempty, scheme = ''mem''\<rparr>)
   \<and> Delete \<lparr>Data = fmupd ''/a'' [1, 2] fmempty, scheme = ''mem''\<rparr> \<lparr>Scheme = ''mem'', Path = []\<rparr>
       = (None, \<lparr>Data = fmupd ''/a'' [1, 2] fmempty, scheme = ''mem''\<rparr>)
   \<and> [] |\<in>| fmdom (Data \<lparr>Data = fmupd [] [7] (fmupd ''/a'' [1, 2] fmempty), scheme = ''mem''\<rparr>)
   \<and> fst (Delete \<lparr>Data = fmupd [] [7] (fmupd ''/a'' [1, 2] fmempty), scheme = ''mem''\<rparr>
              \<lparr>Scheme = ''mem'', Path = []\<rparr>) = None
   \<and> fmlookup (Data (snd (Delete \<lparr>Data = fmupd [] [7] (fmupd ''/a'' [1, 2] fmempty), scheme = ''mem''\<rparr>
                                   \<lparr>Scheme = ''mem'', Path = []\<rparr>))) [] = None
   \<and> fmlookup (Data (snd (Delete \<lparr>Data = fmupd [] [7] (fmupd ''/a'' [1, 2] fmempty), scheme = ''mem''\<rparr>
                                   \<lparr>Scheme = ''mem'', Path = []\<rparr>))) ''/a'' = Some [1, 2]
   \<and> fst (Exists \<lparr>Data = fmupd [] [7] (fmupd ''/a'' [1, 2] fmempty), scheme = ''mem''\<rparr>
              \<lparr>Scheme = ''mem'', Path = []\<rparr>) = Inl (InvalidPath [])"
  using Delete_empty_path_unvalidated
    [of "\<lparr>Scheme = ''mem'', Path = []\<rparr>" "\<lparr>Data = fmupd ''/a'' [1, 2] fmempty, scheme = ''mem''\<rparr>"]
    Delete_empty_path_unvalidated
    [of "\<lparr>Scheme = ''mem'', Path = []\<rparr>"
        "\<lparr>Data = fmupd [] [7] (fmupd ''/a'' [1, 2] fmempty), scheme = ''mem''\<rparr>"]
  by (simp add: Delete_def)

text \<open>
  Claim C10 as stated says that \<open>Delete\<close> on an empty path always leaves \<open>Data\<close>
  unchanged. \<open>Data\<close> is an exported field, and a store that was given an entry under
  the empty key loses it.
\<close>

theorem Delete_empty_key_counterexample:
  "Path \<lparr>Scheme = ''mem'', Path = []\<rparr> = []
   \<and> fst (Delete \<lparr>Data = fmupd [] [1] fmempty, scheme = ''mem''\<rparr> \<lparr>Scheme = ''mem'', Path = []\<rparr>) = None
   \<and> fmlookup (Data \<lparr>Data = fmupd [] [1] fmempty, scheme = ''mem''\<rparr>) [] = Some [1]
   \<and> fmlookup (Data (snd (Delete \<lparr>Data = fmupd [] [1] fmempty, scheme = ''mem''\<rparr>
                                   \<lparr>Scheme = ''mem'', Path = []\<rparr>))) [] = None
   \<and> Data (snd (Delete \<lparr>Data = fmupd [] [1] fmempty, scheme = ''mem''\<rparr> \<lparr>Scheme = ''mem'', Path = []\<rparr>))
       \<noteq> Data \<lparr>Data = fmupd [] [1] fmempty, scheme = ''mem''\<rparr>"
proof -
  have "fmlookup (fmdrop [] (fmupd [] [1::byte] (fmempty :: (string, byte list) fmap))) []
          \<noteq> fmlookup (fmupd [] [1::byte] (fmempty :: (string, byte list) fmap)) []"
    by simp
  then have "fmdrop [] (fmupd [] [1::byte] (fmempty :: (string, byte list) fmap)) \<noteq> fmupd [] [1] fmempty"
    by metis
  then show ?thesis
    by (simp add: Delete_def)
qed

subsection \<open>Deleting\<close>

text \<open>
  Claim C7. For every path, \<open>Delete\<close> returns no error; afterwards no entry is stored at
  the path, the entries at every other path are as before, and no key is added. When no
  entry was stored at the path the store is unchanged, and deleting a second time
  succeeds again and changes nothing.
\<close>

theorem Delete_removes_or_noop:
  "fst (Delete m u) = None
   \<and> fmlookup (Data (snd (Delete m u))) (Path u) = None
   \<and> (\<forall>k. k \<noteq> Path u \<longrightarrow> fmlookup (Data (snd (Delete m u))) k = fmlookup (Data m) k)
   \<and> fmdom (Data (snd (Delete m u))) = fmdom (Data m) |-| {|Path u|}
   \<and> scheme (snd (Delete m u)) = scheme m
   \<and> (Path u |\<notin>| fmdom (Data m) \<longrightarrow> snd (Delete m u) = m)
   \<and> Delete (snd (Delete m u)) u = (None, snd (Delete m u))"
  by (auto simp: Delete_def)

theorem Delete_removes_or_noop_witness:
  "fst (Delete \<lparr>Data = fmupd ''/a'' [1, 2] fmempty, scheme = ''mem''\<rparr> \<lparr>Scheme = ''mem'', Path = ''/b''\<rparr>) = None
   \<and> ''/b'' |\<notin>| fmdom (Data \<lparr>Data = fmupd ''/a'' [1, 2] fmempty, scheme = ''mem''\<rparr>)
   \<and> snd (Delete \<lparr>Data = fmupd ''/a'' [1, 2] fmempty, scheme = ''mem''\<rparr> \<lparr>Scheme = ''mem'', Path = ''/b''\<rparr>)
       = \<lparr>Data = fmupd ''/a'' [1, 2] fmempty, scheme = ''mem''\<rparr>
   \<and> Delete (snd (Delete \<lparr>Data = fmupd ''/a'' [1, 2] fmempty, scheme = ''mem''\<rparr> \<lparr>Scheme = ''mem'', Path = ''/b''\<rparr>))
        \<lparr>Scheme = ''mem'', Path = ''/b''\<rparr>
       = (None, \<lparr>Data = fmupd ''/a'' [1, 2] fmempty, scheme = ''mem''\<rparr>)
   \<and> ''/b'' \<noteq> ''/a''
   \<and> fst (Delete \<lparr>Data = fmupd ''/a'' [1, 2] (fmupd ''/b'' [3] fmempty), scheme = ''mem''\<rparr>
              \<lparr>Scheme = ''mem'', Path = ''/a''\<rparr>) = None
   \<and> fmlookup (Data (snd (Delete \<lparr>Data = fmupd ''/a'' [1, 2] (fmupd ''/b'' [3] fmempty), scheme = ''mem''\<rparr>
                                   \<lparr>Scheme = ''mem'', Path = ''/a''\<rparr>))) ''/a'' = None
   \<and> fmlookup (Data (snd (Delete \<lparr>Data = fmupd ''/a'' [1, 2] (fmupd ''/b'' [3] fmempty), scheme = ''mem''\<rparr>
                                   \<lparr>Scheme = ''mem'', Path = ''/a''\<rparr>))) ''/b'' = Some [3]
   \<and> fmdom (Data (snd (Delete \<lparr>Data = fmupd ''/a'' [1, 2] (fmupd ''/b'' [3] fmempty), scheme = ''mem''\<rparr>
                                \<lparr>Scheme = ''mem'', Path = ''/a''\<rparr>))) = {|''/b''|}"
  using Delete_removes_or_noop
    [of "\<lparr>Data = fmupd ''/a'' [1, 2] fmempty, scheme = ''mem''\<rparr>" "\<lparr>Scheme = ''mem'', Path = ''/b''\<rparr>"]
    Delete_removes_or_noop
    [of "\<lparr>Data = fmupd ''/a'' [1, 2] (fmupd ''/b'' [3] fmempty), scheme = ''mem''\<rparr>"
        "\<lparr>Scheme = ''mem'', Path = ''/a''\<rparr>"]
  by (auto simp: prod_eq_iff)

subsection \<open>Closing\<close>

text \<open>
  Claim C8. \<open>Close\<close> returns no error, sets \<open>readCursor\<close> and \<open>writeCursor\<close> to 0 and
  \<open>writing\<close> to false, which are the values of a handle fresh from \<open>Writer\<close>, keeps the
  handle's path and leaves the store unchanged. Closing the closed handle again gives
  the same result.
\<close>

theorem Close_resets:
  "fst (Close n m) = None
   \<and> readCursor (fst (snd (Close n m))) = 0
   \<and> writeCursor (fst (snd (Close n m))) = 0
   \<and> writing (fst (snd (Close n m))) = False
   \<and> path (fst (snd (Close n m))) = path n
   \<and> snd (snd (Close n m)) = m
   \<and> (path n \<noteq> [] \<longrightarrow>
        fst (Writer m \<lparr>Scheme = scheme m, Path = path n\<rparr>) = Inr (fst (snd (Close n m))))
   \<and> Close (fst (snd (Close n m))) (snd (snd (Close n m))) = Close n m"
  by (simp add: Close_def Writer_def)

theorem Close_resets_witness:
  "Close \<lparr>path = ''/a'', writing = True, readCursor = 3, writeCursor = 5\<rparr>
         \<lparr>Data = fmupd ''/a'' [1, 2, 3, 4, 5] fmempty, scheme = ''mem''\<rparr>
   = (None, \<lparr>path = ''/a'', writing = False, readCursor = 0, writeCursor = 0\<rparr>,
      \<lparr>Data = fmupd ''/a'' [1, 2, 3, 4, 5] fmempty, scheme = ''mem''\<rparr>)
   \<and> ''/a'' \<noteq> []
   \<and> fst (Writer \<lparr>Data = fmupd ''/a'' [1, 2, 3, 4, 5] fmempty, scheme = ''mem''\<rparr> \<lparr>Scheme = ''mem'', Path = ''/a''\<rparr>)
       = Inr \<lparr>path = ''/a'', writing = False, readCursor = 0, writeCursor = 0\<rparr>"
  using Close_resets
    [of "\<lparr>path = ''/a'', writing = True, readCursor = 3, writeCursor = 5\<rparr>"
        "\<lparr>Data = fmupd ''/a'' [1, 2, 3, 4, 5] fmempty, scheme = ''mem''\<rparr>"]
  by (simp add: Close_def)

subsection \<open>Reading\<close>

text \<open>
  What the copy loop of \<open>Read\<close> computes, for any starting point: it copies
  \<open>min (length p - j) (length data - rc)\<close> bytes and advances both indices and the
  count by that number.
\<close>

lemma Read_loop_result:
  "Read_loop data p j rc count =
     (take j p @ take (min (length p - j) (length data - rc)) (drop rc data)
        @ drop (j + min (length p - j) (length data - rc)) p,
      j + min (length p - j) (length data - rc),
      rc + min (length p - j) (length data - rc),
      count + min (length p - j) (length data - rc))"
proof (induction data p j rc count rule: Read_loop.induct)
  case (1 data p j rc count)
  show ?case
  proof (cases "j < length p \<and> rc < length data")
    case False
    then have "min (length p - j) (length data - rc) = 0"
      by auto
    with False show ?thesis
      by (subst Read_loop.simps) auto
  next
    case True
    define c where "c = min (length p - Suc j) (length data - Suc rc)"
    have c: "min (length p - j) (length data - rc) = Suc c"
      using True by (auto simp: c_def min_def)
    have t: "take (Suc j) (p[j := data ! rc]) = take j p @ [data ! rc]"
      using True by (simp add: take_Suc_conv_app_nth)
    have d: "data ! rc # take c (drop (Suc rc) data) = take (Suc c) (drop rc data)"
      using True by (simp add: Cons_nth_drop_Suc [symmetric])
    have "Read_loop data p j rc count
            = Read_loop data (p[j := data ! rc]) (Suc j) (Suc rc) (Suc count)"
      using True by (subst Read_loop.simps) simp
    also have "\<dots> = (take j p @ take (Suc c) (drop rc data) @ drop (j + Suc c) p,
                      j + Suc c, rc + Suc c, count + Suc c)"
      using True "1.IH" t d by (simp add: c_def [symmetric] del: take_Suc_Cons)
    finally show ?thesis
      by (simp only: c)
  qed
qed

text \<open>
  Claim C5. If no entry exists for the handle's path when \<open>Read\<close> is called, the call
  fails with \<open>NotFound\<close>, returns the count 0 and leaves buffer, handle and store as
  they were. Otherwise it copies \<open>c = min (length p) (length data - readCursor)\<close> bytes
  of the blob, starting at \<open>readCursor\<close>, to the front of the buffer (the difference is
  that of naturals: 0 when the cursor is already past the end), advances \<open>readCursor\<close>
  by \<open>c\<close>, and returns \<open>EOF\<close> exactly when the advanced cursor has reached or passed the
  length of the blob, so on the very call that reaches the end. Once \<open>EOF\<close> has been
  returned, every further call on that handle and store returns 0 bytes and \<open>EOF\<close>
  again, and changes nothing.
\<close>

theorem Read_contract:
  "(fmlookup (Data m) (path n) = None \<longrightarrow>
      Read n p m = ((0, Some (NotFound (path n))), p, n, m))
   \<and> (\<forall>data. fmlookup (Data m) (path n) = Some data \<longrightarrow>
        (let c = min (length p) (length data - readCursor n);
             n' = n\<lparr>readCursor := readCursor n + c\<rparr>
         in Read n p m =
              ((c, if length data \<le> readCursor n' then Some EOF else None),
               take c (drop (readCursor n) data) @ drop c p, n', m)
            \<and> (length data \<le> readCursor n' \<longrightarrow>
                 (\<forall>q. Read n' q m = ((0, Some EOF), q, n', m)))))"
  by (auto simp: Read_def Read_loop_result Let_def)

theorem Read_contract_witness:
  "fmlookup (Data \<lparr>Data = fmupd ''/b'' [9] fmempty, scheme = ''mem''\<rparr>)
     (path \<lparr>path = ''/a'', writing = False, readCursor = 0, writeCursor = 0\<rparr>) = None
   \<and> Read \<lparr>path = ''/a'', writing = False, readCursor = 0, writeCursor = 0\<rparr> [0, 0]
        \<lparr>Data = fmupd ''/b'' [9] fmempty, scheme = ''mem''\<rparr>
      = ((0, Some (NotFound ''/a'')), [0, 0],
         \<lparr>path = ''/a'', writing = False, readCursor = 0, writeCursor = 0\<rparr>,
         \<lparr>Data = fmupd ''/b'' [9] fmempty, scheme = ''mem''\<rparr>)
   \<and> fmlookup (Data \<lparr>Data = fmupd ''/a'' [1, 2, 3] fmempty, scheme = ''mem''\<rparr>)
       (path \<lparr>path = ''/a'', writing = False, readCursor = 1, writeCursor = 0\<rparr>) = Some [1, 2, 3]
   \<and> Read \<lparr>path = ''/a'', writing = False, readCursor = 1, writeCursor = 0\<rparr> [0, 0, 0, 0]
        \<lparr>Data = fmupd ''/a'' [1, 2, 3] fmempty, scheme = ''mem''\<rparr>
      = ((2, Some EOF), [2, 3, 0, 0],
         \<lparr>path = ''/a'', writing = False, readCursor = 3, writeCursor = 0\<rparr>,
         \<lparr>Data = fmupd ''/a'' [1, 2, 3] fmempty, scheme = ''mem''\<rparr>)
   \<and> Read \<lparr>path = ''/a'', writing = False, readCursor = 3, writeCursor = 0\<rparr> [5, 5]
        \<lparr>Data = fmupd ''/a'' [1, 2, 3] fmempty, scheme = ''mem''\<rparr>
      = ((0, Some EOF), [5, 5],
         \<lparr>path = ''/a'', writing = False, readCursor = 3, writeCursor = 0\<rparr>,
         \<lparr>Data = fmupd ''/a'' [1, 2, 3] fmempty, scheme = ''mem''\<rparr>)
   \<and> Read \<lparr>path = ''/a'', writing = False, readCursor = 0, writeCursor = 0\<rparr> [0, 0]
        \<lparr>Data = fmupd ''/a'' [1, 2, 3] fmempty, scheme = ''mem''\<rparr>
      = ((2, None), [1, 2],
         \<lparr>path = ''/a'', writing = False, readCursor = 2, writeCursor = 0\<rparr>,
         \<lparr>Data = fmupd ''/a'' [1, 2, 3] fmempty, scheme = ''mem''\<rparr>)"
  using Read_contract
    [of "\<lparr>Data = fmupd ''/a'' [1, 2, 3] fmempty, scheme = ''mem''\<rparr>"
        "\<lparr>path = ''/a'', writing = False, readCursor = 0, writeCursor = 0\<rparr>" "[0, 0]"]
    Read_contract
    [of "\<lparr>Data = fmupd ''/b'' [9] fmempty, scheme = ''mem''\<rparr>"
        "\<lparr>path = ''/a'', writing = False, readCursor = 0, writeCursor = 0\<rparr>" "[0, 0]"]
    Read_contract
    [of "\<lparr>Data = fmupd ''/a'' [1, 2, 3] fmempty, scheme = ''mem''\<rparr>"
        "\<lparr>path = ''/a'', writing = False, readCursor = 1, writeCursor = 0\<rparr>" "[0, 0, 0, 0]"]
  by (simp add: Let_def numeral_3_eq_3 numeral_2_eq_2)

subsection \<open>Writing\<close>

text \<open>
  The copy loop of \<open>Write\<close>, case by case. It stops at once when the cursor has reached
  \<open>start + length p\<close>. It panics when the map has at least \<open>wc + length p\<close> keys (so
  that nothing is appended) and the blob is not longer than the cursor. When the map has
  fewer than \<open>wc + length p\<close> keys and the blob ends at the cursor, every round appends
  one byte and overwrites it, and the loop appends the rest of \<open>p\<close> to the blob.
\<close>

lemma Write_loop_done:
  "\<not> wc < start + length p \<Longrightarrow> Write_loop pth p start wc count D = (None, wc, count, D)"
  by (subst Write_loop.simps) simp

lemma Write_loop_panics:
  assumes "wc < start + length p"
    and "\<not> fcard (fmdom D) < wc + length p"
    and "length (index_or_nil D pth) \<le> wc"
  shows "Write_loop pth p start wc count D = (Some IndexOutOfRange, wc, count, D)"
  using assms by (subst Write_loop.simps) simp

lemma Write_loop_step:
  assumes "wc < start + length p" and "start \<le> wc"
    and "fcard (fmdom D) < wc + length p"
    and "fmlookup D pth = Some blob" and "length blob = wc"
  shows "Write_loop pth p start wc count D =
           Write_loop pth p start (Suc wc) (Suc count) (fmupd pth (blob @ [p ! (wc - start)]) D)"
proof -
  have lt: "wc - start < length p"
    using assms(1,2) by arith
  have idx: "index_or_nil D pth = blob"
    using assms(4) by (simp add: index_or_nil_def)
  have upd: "(blob @ [0])[wc := p ! (wc - start)] = blob @ [p ! (wc - start)]"
    using assms(5) by (simp add: list_update_append)
  show ?thesis
    using assms(1,2,3) lt idx upd assms(5)
    by (subst Write_loop.simps) (simp add: index_or_nil_def Let_def)
qed

lemma Write_loop_appends:
  assumes "fcard (fmdom D) < wc + length p"
    and "start \<le> wc" and "wc \<le> start + length p"
    and "fmlookup D pth = Some blob" and "length blob = wc"
  shows "Write_loop pth p start wc count D =
           (None, start + length p, count + (start + length p - wc),
            fmupd pth (blob @ drop (wc - start) p) D)"
  using assms
proof (induction "start + length p - wc" arbitrary: wc count D blob)
  case 0
  then have "wc = start + length p" by simp
  moreover have "fmupd pth blob D = D"
    using "0.prems"(4) by (intro fmap_ext) auto
  ultimately show ?case
    by (simp add: Write_loop_done)
next
  case (Suc k)
  then have lt: "wc < start + length p" by simp
  define D2 where "D2 = fmupd pth (blob @ [p ! (wc - start)]) D"
  have in_dom: "pth |\<in>| fmdom D"
    using Suc.prems(4) by (simp add: fmdomI)
  have card: "fcard (fmdom D2) < Suc wc + length p"
    using Suc.prems(1) in_dom by (simp add: D2_def fcard_finsert_if)
  have step: "Write_loop pth p start wc count D = Write_loop pth p start (Suc wc) (Suc count) D2"
    unfolding D2_def using lt Suc.prems by (intro Write_loop_step) simp_all
  have k: "k = start + length p - Suc wc"
    using Suc.hyps(2) by simp
  have rest: "Write_loop pth p start (Suc wc) (Suc count) D2 =
         (None, start + length p, Suc count + (start + length p - Suc wc),
          fmupd pth ((blob @ [p ! (wc - start)]) @ drop (Suc wc - start) p) D2)"
    using lt Suc.prems by (intro Suc.hyps(1) [OF k card]) (simp_all add: D2_def)
  have dr: "p ! (wc - start) # drop (Suc wc - start) p = drop (wc - start) p"
    using lt Suc.prems(2) by (simp add: Cons_nth_drop_Suc Suc_diff_le)
  show ?case
    using lt step rest dr by (simp add: D2_def)
qed

text \<open>
  \<open>Write\<close> on a handle that has not written yet and whose cursor is 0, as \<open>Writer\<close>
  creates it. The entry is created or truncated. Then the outcome depends on the number
  of keys the map has, the key of the path included: with fewer keys than bytes to write
  the blob becomes \<open>p\<close>; with at least as many keys as bytes (and at least one byte)
  the first element store is out of range.
\<close>

lemma Write_first_extends:
  assumes "\<not> writing n" and "writeCursor n = 0"
    and "fcard (finsert (path n) (fmdom (Data m))) < length p"
  shows "Write n p m =
           (Inr (length p, None), n\<lparr>writing := True, writeCursor := length p\<rparr>,
            m\<lparr>Data := fmupd (path n) p (Data m)\<rparr>)"
proof -
  define D2 where "D2 = fmupd (path n) [] (Data m)"
  have D2: "(if \<not> writing n
             then fmupd (path n) []
                    (if path n |\<in>| fmdom (Data m) then Data m else fmupd (path n) [] (Data m))
             else (if path n |\<in>| fmdom (Data m) then Data m else fmupd (path n) [] (Data m))) = D2"
    using assms(1) by (simp add: D2_def)
  have "Write_loop (path n) p 0 0 0 D2 =
          (None, 0 + length p, 0 + (0 + length p - 0), fmupd (path n) ([] @ drop (0 - 0) p) D2)"
    using assms(3) by (intro Write_loop_appends) (simp_all add: D2_def)
  then show ?thesis
    using assms(1,2) by (simp add: Write_def Let_def D2) (simp add: D2_def)
qed

lemma Write_first_panics:
  assumes "\<not> writing n" and "writeCursor n = 0"
    and "p \<noteq> []" and "length p \<le> fcard (finsert (path n) (fmdom (Data m)))"
  shows "Write n p m =
           (Inl IndexOutOfRange, n\<lparr>writing := True, writeCursor := 0\<rparr>,
            m\<lparr>Data := fmupd (path n) [] (Data m)\<rparr>)"
proof -
  define D2 where "D2 = fmupd (path n) [] (Data m)"
  have D2: "(if \<not> writing n
             then fmupd (path n) []
                    (if path n |\<in>| fmdom (Data m) then Data m else fmupd (path n) [] (Data m))
             else (if path n |\<in>| fmdom (Data m) then Data m else fmupd (path n) [] (Data m))) = D2"
    using assms(1) by (simp add: D2_def)
  have "Write_loop (path n) p 0 0 0 D2 = (Some IndexOutOfRange, 0, 0, D2)"
    using assms(3,4) by (intro Write_loop_panics) (simp_all add: D2_def index_or_nil_def)
  then show ?thesis
    using assms(1,2) by (simp add: Write_def Let_def D2) (simp add: D2_def)
qed

lemma Write_first_empty:
  assumes "\<not> writing n"
  shows "Write n [] m =
           (Inr (0, None), n\<lparr>writing := True\<rparr>, m\<lparr>Data := fmupd (path n) [] (Data m)\<rparr>)"
  using assms by (simp add: Write_def Let_def Write_loop_done)

text \<open>
  A later \<open>Write\<close> of the same session, on a blob that ends at the cursor: it appends
  \<open>p\<close> when the map has fewer than \<open>writeCursor + length p\<close> keys and panics otherwise.
\<close>

lemma Write_next_appends:
  assumes "writing n" and "fmlookup (Data m) (path n) = Some blob"
    and "length blob = writeCursor n"
    and "fcard (fmdom (Data m)) < writeCursor n + length p"
  shows "Write n p m =
           (Inr (length p, None), n\<lparr>writeCursor := writeCursor n + length p\<rparr>,
            m\<lparr>Data := fmupd (path n) (blob @ p) (Data m)\<rparr>)"
proof -
  have dom: "path n |\<in>| fmdom (Data m)"
    using assms(2) by (simp add: fmdomI)
  have "Write_loop (path n) p (writeCursor n) (writeCursor n) 0 (Data m) =
          (None, writeCursor n + length p, 0 + (writeCursor n + length p - writeCursor n),
           fmupd (path n) (blob @ drop (writeCursor n - writeCursor n) p) (Data m))"
    using assms by (intro Write_loop_appends) simp_all
  then show ?thesis
    using assms(1) dom by (simp add: Write_def Let_def)
qed

lemma Write_next_panics:
  assumes "writing n" and "fmlookup (Data m) (path n) = Some blob"
    and "length blob \<le> writeCursor n"
    and "p \<noteq> []" and "writeCursor n + length p \<le> fcard (fmdom (Data m))"
  shows "Write n p m = (Inl IndexOutOfRange, n, m)"
proof -
  have dom: "path n |\<in>| fmdom (Data m)"
    using assms(2) by (simp add: fmdomI)
  have "Write_loop (path n) p (writeCursor n) (writeCursor n) 0 (Data m) =
          (Some IndexOutOfRange, writeCursor n, 0, Data m)"
    using assms by (intro Write_loop_panics) (simp_all add: index_or_nil_def)
  then show ?thesis
    using assms(1) dom by (simp add: Write_def Let_def)
qed

text \<open>
  When the map has fewer keys than there are bytes to write, writing \<open>b\<close> through a
  fresh writer, closing it and reading through a fresh reader into a buffer that can
  hold \<open>b\<close> gives back \<open>b\<close> together with \<open>EOF\<close>.
\<close>

lemma round_trip_when_extended:
  assumes "Path u \<noteq> []"
    and "fcard (finsert (Path u) (fmdom (Data m))) < length b"
    and "length b \<le> length q"
  shows "\<exists>w w1 m1 w2 r.
           Writer m u = (Inr w, m)
         \<and> Write w b m = (Inr (length b, None), w1, m1)
         \<and> Close w1 m1 = (None, w2, m1)
         \<and> Reader m1 u = (Inr r, m1)
         \<and> Read r q m1 = ((length b, Some EOF), b @ drop (length b) q,
                           r\<lparr>readCursor := length b\<rparr>, m1)"
proof -
  define w where "w = \<lparr>path = Path u, writing = False, readCursor = 0, writeCursor = 0\<rparr>"
  define m1 where "m1 = m\<lparr>Data := fmupd (Path u) b (Data m)\<rparr>"
  have 1: "Writer m u = (Inr w, m)"
    using assms(1) by (simp add: Writer_def w_def)
  have 2: "Write w b m = (Inr (length b, None), w\<lparr>writing := True, writeCursor := length b\<rparr>, m1)"
    unfolding m1_def using assms(2) Write_first_extends [of w m b] by (simp add: w_def)
  have 3: "Close (w\<lparr>writing := True, writeCursor := length b\<rparr>) m1 = (None, w, m1)"
    by (simp add: Close_def w_def)
  have 4: "Reader m1 u = (Inr w, m1)"
    using assms(1) by (simp add: Reader_def w_def m1_def)
  have "fmlookup (Data m1) (path w) = Some b"
    by (simp add: m1_def w_def)
  then have 5: "Read w q m1 = ((length b, Some EOF), b @ drop (length b) q,
                           w\<lparr>readCursor := length b\<rparr>, m1)"
    using assms(3) by (simp add: Read_def Read_loop_result w_def min_absorb2)
  show ?thesis
    using 1 2 3 4 5 by blast
qed

text \<open>
  Claim C1 says that \<open>Write\<close> extends the blob so that the element store
  \<open>Data[path][writeCursor]\<close> is always in bounds. The growth test compares the number
  of keys of the map, \<open>len(n.repo.Data)\<close>, with \<open>writeCursor + len(p)\<close>, not the length
  of the blob. In a new, empty store a fresh writer on \<open>/a\<close> that writes one byte
  creates the entry, so the map has one key; \<open>1 < 0 + 1\<close> is false, nothing is appended,
  and the store into index 0 of the empty blob panics.
\<close>

theorem Write_one_byte_panics:
  "Writer (NewInMemoryRepository ''mem'') \<lparr>Scheme = ''mem'', Path = ''/a''\<rparr>
     = (Inr \<lparr>path = ''/a'', writing = False, readCursor = 0, writeCursor = 0\<rparr>,
        NewInMemoryRepository ''mem'')
   \<and> Write \<lparr>path = ''/a'', writing = False, readCursor = 0, writeCursor = 0\<rparr> [1]
        (NewInMemoryRepository ''mem'')
     = (Inl IndexOutOfRange,
        \<lparr>path = ''/a'', writing = True, readCursor = 0, writeCursor = 0\<rparr>,
        \<lparr>Data = fmupd ''/a'' [] fmempty, scheme = ''mem''\<rparr>)"
  by (simp add: Writer_def Write_def NewInMemoryRepository_def Write_loop.simps
      index_or_nil_def fcard_finsert_if)

text \<open>
  Claim C2 says that writing \<open>b\<close> to a path through a fresh writer and reading the path
  back yields \<open>b\<close>, from any store. In a store with the two entries \<open>/x\<close> and \<open>/y\<close>,
  writing the three bytes \<open>[1, 2, 3]\<close> to \<open>/a\<close> gives the map three keys; \<open>3 < 0 + 3\<close>
  is false and the write panics, leaving an empty blob at \<open>/a\<close>; after closing the
  handle, a fresh reader on \<open>/a\<close> reads no byte before \<open>EOF\<close>.
\<close>

theorem round_trip_fails_on_short_write:
  "Writer \<lparr>Data = fmupd ''/x'' [1, 2] (fmupd ''/y'' [] fmempty), scheme = ''mem''\<rparr>
       \<lparr>Scheme = ''mem'', Path = ''/a''\<rparr>
     = (Inr \<lparr>path = ''/a'', writing = False, readCursor = 0, writeCursor = 0\<rparr>,
        \<lparr>Data = fmupd ''/x'' [1, 2] (fmupd ''/y'' [] fmempty), scheme = ''mem''\<rparr>)
   \<and> Write \<lparr>path = ''/a'', writing = False, readCursor = 0, writeCursor = 0\<rparr> [1, 2, 3]
        \<lparr>Data = fmupd ''/x'' [1, 2] (fmupd ''/y'' [] fmempty), scheme = ''mem''\<rparr>
     = (Inl IndexOutOfRange,
        \<lparr>path = ''/a'', writing = True, readCursor = 0, writeCursor = 0\<rparr>,
        \<lparr>Data = fmupd ''/a'' [] (fmupd ''/x'' [1, 2] (fmupd ''/y'' [] fmempty)), scheme = ''mem''\<rparr>)
   \<and> Close \<lparr>path = ''/a'', writing = True, readCursor = 0, writeCursor = 0\<rparr>
        \<lparr>Data = fmupd ''/a'' [] (fmupd ''/x'' [1, 2] (fmupd ''/y'' [] fmempty)), scheme = ''mem''\<rparr>
     = (None, \<lparr>path = ''/a'', writing = False, readCursor = 0, writeCursor = 0\<rparr>,
        \<lparr>Data = fmupd ''/a'' [] (fmupd ''/x'' [1, 2] (fmupd ''/y'' [] fmempty)), scheme = ''mem''\<rparr>)
   \<and> Reader \<lparr>Data = fmupd ''/a'' [] (fmupd ''/x'' [1, 2] (fmupd ''/y'' [] fmempty)), scheme = ''mem''\<rparr>
        \<lparr>Scheme = ''mem'', Path = ''/a''\<rparr>
     = (Inr \<lparr>path = ''/a'', writing = False, readCursor = 0, writeCursor = 0\<rparr>,
        \<lparr>Data = fmupd ''/a'' [] (fmupd ''/x'' [1, 2] (fmupd ''/y'' [] fmempty)), scheme = ''mem''\<rparr>)
   \<and> Read \<lparr>path = ''/a'', writing = False, readCursor = 0, writeCursor = 0\<rparr> [0, 0, 0]
        \<lparr>Data = fmupd ''/a'' [] (fmupd ''/x'' [1, 2] (fmupd ''/y'' [] fmempty)), scheme = ''mem''\<rparr>
     = ((0, Some EOF), [0, 0, 0],
        \<lparr>path = ''/a'', writing = False, readCursor = 0, writeCursor = 0\<rparr>,
        \<lparr>Data = fmupd ''/a'' [] (fmupd ''/x'' [1, 2] (fmupd ''/y'' [] fmempty)), scheme = ''mem''\<rparr>)"
  by (simp add: Writer_def Write_def Close_def Reader_def Read_def Read_loop.simps Write_loop.simps
      index_or_nil_def fcard_finsert_if)

text \<open>
  Claim C3 says that the first \<open>Write\<close> of a handle truncates the entry and the later
  ones append, so that a second fresh writer that writes \<open>b3\<close> replaces the content by
  \<open>b3\<close>, and \<open>b1\<close> then \<open>b2\<close> on one handle store \<open>b1 @ b2\<close>. In the store with the one
  entry \<open>/a \<mapsto> [1, 2]\<close>, a fresh writer on \<open>/a\<close> that writes \<open>b3 = [7]\<close> truncates the
  entry and then panics, leaving \<open>[]\<close> and not \<open>[7]\<close>; writing \<open>b1 = []\<close> and then
  \<open>b2 = [5]\<close> on one handle panics in the second call, leaving \<open>[]\<close> and not \<open>[5]\<close>.
\<close>

theorem second_writer_panics_instead_of_replacing:
  "Write \<lparr>path = ''/a'', writing = False, readCursor = 0, writeCursor = 0\<rparr> [7]
        \<lparr>Data = fmupd ''/a'' [1, 2] fmempty, scheme = ''mem''\<rparr>
     = (Inl IndexOutOfRange,
        \<lparr>path = ''/a'', writing = True, readCursor = 0, writeCursor = 0\<rparr>,
        \<lparr>Data = fmupd ''/a'' [] fmempty, scheme = ''mem''\<rparr>)
   \<and> Write \<lparr>path = ''/a'', writing = False, readCursor = 0, writeCursor = 0\<rparr> []
        \<lparr>Data = fmupd ''/a'' [1, 2] fmempty, scheme = ''mem''\<rparr>
     = (Inr (0, None),
        \<lparr>path = ''/a'', writing = True, readCursor = 0, writeCursor = 0\<rparr>,
        \<lparr>Data = fmupd ''/a'' [] fmempty, scheme = ''mem''\<rparr>)
   \<and> Write \<lparr>path = ''/a'', writing = True, readCursor = 0, writeCursor = 0\<rparr> [5]
        \<lparr>Data = fmupd ''/a'' [] fmempty, scheme = ''mem''\<rparr>
     = (Inl IndexOutOfRange,
        \<lparr>path = ''/a'', writing = True, readCursor = 0, writeCursor = 0\<rparr>,
        \<lparr>Data = fmupd ''/a'' [] fmempty, scheme = ''mem''\<rparr>)"
  by (simp add: Write_def Write_loop.simps index_or_nil_def fcard_finsert_if)

subsection \<open>The empty key\<close>

text \<open>
  No operation stores an entry under the empty key: \<open>Write\<close> only ever adds the key of
  its handle, a handle from \<open>Writer\<close> has a non-empty path, and \<open>Delete\<close> adds nothing.
  Only a direct assignment to the exported field \<open>Data\<close> can create such an entry.
\<close>

lemma Write_loop_keys:
  "fmdom (snd (snd (snd (Write_loop pth p start wc count D)))) |\<subseteq>| finsert pth (fmdom D)"
proof (induction "start + length p - wc" arbitrary: wc count D)
  case 0
  then have "\<not> wc < start + length p" by simp
  then show ?case
    by (auto simp: Write_loop_done)
next
  case (Suc k)
  then have lt: "wc < start + length p" by simp
  define D1 where "D1 = (if fcard (fmdom D) < wc + length p
                         then fmupd pth (index_or_nil D pth @ [0]) D else D)"
  define D2 where "D2 = fmupd pth ((index_or_nil D1 pth)[wc := p ! (wc - start)]) D1"
  have d1: "fmdom D1 |\<subseteq>| finsert pth (fmdom D)"
    by (auto simp: D1_def)
  have d2: "finsert pth (fmdom D2) |\<subseteq>| finsert pth (fmdom D)"
    using d1 by (auto simp: D2_def)
  show ?case
  proof (cases "wc < length (index_or_nil D1 pth) \<and> start \<le> wc \<and> wc - start < length p")
    case True
    then have "Write_loop pth p start wc count D = Write_loop pth p start (Suc wc) (Suc count) D2"
      using lt by (subst Write_loop.simps) (simp add: D1_def [symmetric] D2_def Let_def)
    moreover have "fmdom (snd (snd (snd (Write_loop pth p start (Suc wc) (Suc count) D2))))
                     |\<subseteq>| finsert pth (fmdom D2)"
      using Suc.hyps(2) by (intro Suc.hyps(1)) simp
    ultimately show ?thesis
      using d2 by (metis fsubset_trans)
  next
    case False
    then have "Write_loop pth p start wc count D = (Some IndexOutOfRange, wc, count, D1)"
      using lt by (subst Write_loop.simps) (auto simp: D1_def [symmetric] Let_def)
    then show ?thesis
      using d1 by simp
  qed
qed

lemma Write_keeps_keys_non_empty:
  assumes "path n \<noteq> []" and "[] |\<notin>| fmdom (Data m)"
  shows "[] |\<notin>| fmdom (Data (snd (snd (Write n p m))))"
proof -
  define D2 where "D2 = (if \<not> writing n
             then fmupd (path n) []
                    (if path n |\<in>| fmdom (Data m) then Data m else fmupd (path n) [] (Data m))
             else (if path n |\<in>| fmdom (Data m) then Data m else fmupd (path n) [] (Data m)))"
  have "fmdom D2 |\<subseteq>| finsert (path n) (fmdom (Data m))"
    by (auto simp: D2_def)
  moreover have "fmdom (snd (snd (snd (Write_loop (path n) p (writeCursor n) (writeCursor n) 0 D2))))
           |\<subseteq>| finsert (path n) (fmdom D2)"
    by (rule Write_loop_keys)
  ultimately have "fmdom (snd (snd (snd (Write_loop (path n) p (writeCursor n) (writeCursor n) 0 D2))))
           |\<subseteq>| finsert (path n) (fmdom (Data m))"
    by auto
  moreover have "Data (snd (snd (Write n p m))) =
           snd (snd (snd (Write_loop (path n) p (writeCursor n) (writeCursor n) 0 D2)))"
    by (simp add: Write_def Let_def D2_def split: prod.splits option.splits)
  ultimately show ?thesis
    using assms by auto
qed

lemma Writer_path_non_empty:
  "Writer m u = (Inr n, m') \<Longrightarrow> path n \<noteq> []"
  by (auto simp: Writer_def split: if_splits)

lemma Delete_keeps_keys_non_empty:
  "[] |\<notin>| fmdom (Data m) \<Longrightarrow> [] |\<notin>| fmdom (Data (snd (Delete m u)))"
  by (simp add: Delete_def)

subsection \<open>Listing\<close>

text \<open>\<open>Split\<close> returns one piece more than the string has separators.\<close>

lemma Split_not_Nil: "Split s sep \<noteq> []"
  by (induction s) (auto split: list.splits)

lemma length_Split: "length (Split s sep) = Suc (length (filter (\<lambda>x. x = sep) s))"
  by (induction s) (auto split: list.splits simp: Split_not_Nil)

text \<open>
  One round of the loop of \<open>List\<close> on a key that is not empty: a key that meets the
  criterion is parsed and appended, any other key is skipped.
\<close>

lemma List_loop_listed:
  assumes "k \<noteq> []" and "is_listed prefix k" and "parse (sch @ ''://'' @ k) = Inr uri"
  shows "List_loop parse sch prefix (Split prefix CHR ''/'') (k # ks) listing =
           List_loop parse sch prefix (Split prefix CHR ''/'') ks (listing @ [uri])"
  using assms
  by (auto simp: is_listed_def key_component_count_def component_count_def length_Split Let_def
      split: if_splits)

lemma List_loop_skipped:
  assumes "k \<noteq> []" and "\<not> is_listed prefix k"
  shows "List_loop parse sch prefix (Split prefix CHR ''/'') (k # ks) listing =
           List_loop parse sch prefix (Split prefix CHR ''/'') ks listing"
  using assms
  by (auto simp: is_listed_def key_component_count_def component_count_def length_Split Let_def
      split: if_splits)

lemma List_loop_result:
  assumes "[] \<notin> set ks"
    and "\<forall>k \<in> set ks. is_listed prefix k \<longrightarrow> parse (sch @ ''://'' @ k) = Inr (f k)"
  shows "List_loop parse sch prefix (Split prefix CHR ''/'') ks listing =
           Inr (listing @ map f (filter (is_listed prefix) ks), None)"
  using assms
proof (induction ks arbitrary: listing)
  case Nil
  then show ?case by simp
next
  case (Cons k ks)
  have k: "k \<noteq> []" using Cons.prems(1) by auto
  have IH: "\<And>l. List_loop parse sch prefix (Split prefix CHR ''/'') ks l =
           Inr (l @ map f (filter (is_listed prefix) ks), None)"
    using Cons.prems by (intro Cons.IH) auto
  show ?case
  proof (cases "is_listed prefix k")
    case True
    then have "parse (sch @ ''://'' @ k) = Inr (f k)"
      using Cons.prems(2) by simp
    then show ?thesis
      using True k IH by (simp add: List_loop_listed del: List_loop.simps)
  next
    case False
    then show ?thesis
      using k IH by (simp add: List_loop_skipped del: List_loop.simps)
  qed
qed

text \<open>
  Claim C4, as amended. For every store none of whose keys is the empty string, every
  URI \<open>u\<close> with a non-empty path and every order \<open>ks\<close> in which the keys are visited,
  provided the URI parser accepts \<open>scheme://k\<close> for every qualifying key \<open>k\<close> (giving
  \<open>f k\<close>): \<open>List\<close> returns without error, leaves the store unchanged, and returns
  exactly the URIs of the stored keys \<open>k\<close> that start with the prefix (the path of \<open>u\<close>,
  with \<open>/\<close> appended unless it already ends with \<open>/\<close>) and whose component count,
  discounting a single trailing separator, equals the component count of the prefix;
  each such key is listed once. With the entries \<open>/a/b\<close>, \<open>/a/b/c\<close> and \<open>/a/bc\<close>,
  listing \<open>/a\<close> returns the URIs of \<open>/a/b\<close> and \<open>/a/bc\<close>.
\<close>

theorem List_lists_one_level:
  assumes "Path u \<noteq> []"
    and "[] |\<notin>| fmdom (Data m)"
    and "range_order (Data m) ks"
    and "\<forall>k. k |\<in>| fmdom (Data m) \<and> is_listed (list_prefix (Path u)) k \<longrightarrow>
             parse (scheme m @ ''://'' @ k) = Inr (f k)"
  shows "List parse ks m u =
           (Inr (map f (filter (is_listed (list_prefix (Path u))) ks), None), m)
       \<and> set (map f (filter (is_listed (list_prefix (Path u))) ks)) =
           f ` {k. k |\<in>| fmdom (Data m) \<and> is_listed (list_prefix (Path u)) k}
       \<and> distinct (filter (is_listed (list_prefix (Path u))) ks)"
proof -
  have keys: "set ks = fset (fmdom (Data m))"
    using assms(3) by (auto simp: range_order_def fset_of_list.rep_eq [symmetric])
  have "[] \<notin> set ks"
    using assms(2) keys by simp
  moreover have "\<forall>k \<in> set ks. is_listed (list_prefix (Path u)) k \<longrightarrow>
                   parse (scheme m @ ''://'' @ k) = Inr (f k)"
    using assms(4) keys by simp
  ultimately have "List_loop parse (scheme m) (list_prefix (Path u))
                     (Split (list_prefix (Path u)) CHR ''/'') ks [] =
                   Inr ([] @ map f (filter (is_listed (list_prefix (Path u))) ks), None)"
    by (rule List_loop_result)
  moreover have "(if last (Path u) \<noteq> CHR ''/'' then Path u @ ''/'' else Path u) = list_prefix (Path u)"
    using assms(1) by (simp add: list_prefix_def)
  ultimately have "List parse ks m u =
           (Inr (map f (filter (is_listed (list_prefix (Path u))) ks), None), m)"
    using assms(1) by (simp add: List_def Let_def del: List_loop.simps)
  moreover have "set (map f (filter (is_listed (list_prefix (Path u))) ks)) =
           f ` {k. k |\<in>| fmdom (Data m) \<and> is_listed (list_prefix (Path u)) k}"
    using keys by auto
  moreover have "distinct (filter (is_listed (list_prefix (Path u))) ks)"
    using assms(3) by (simp add: range_order_def)
  ultimately show ?thesis by blast
qed

theorem List_lists_one_level_witness:
  "Path \<lparr>Scheme = ''mem'', Path = ''/a''\<rparr> \<noteq> []
   \<and> [] |\<notin>| fmdom (Data \<lparr>Data = fmupd ''/a/b'' [1] (fmupd ''/a/b/c'' [2] (fmupd ''/a/bc'' [3] fmempty)),
                            scheme = ''mem''\<rparr>)
   \<and> range_order (Data \<lparr>Data = fmupd ''/a/b'' [1] (fmupd ''/a/b/c'' [2] (fmupd ''/a/bc'' [3] fmempty)),
                          scheme = ''mem''\<rparr>) [''/a/b'', ''/a/b/c'', ''/a/bc'']
   \<and> List ParseURI [''/a/b'', ''/a/b/c'', ''/a/bc'']
        \<lparr>Data = fmupd ''/a/b'' [1] (fmupd ''/a/b/c'' [2] (fmupd ''/a/bc'' [3] fmempty)), scheme = ''mem''\<rparr>
        \<lparr>Scheme = ''mem'', Path = ''/a''\<rparr>
     = (Inr ([\<lparr>Scheme = ''mem'', Path = ''/a/b''\<rparr>, \<lparr>Scheme = ''mem'', Path = ''/a/bc''\<rparr>], None),
        \<lparr>Data = fmupd ''/a/b'' [1] (fmupd ''/a/b/c'' [2] (fmupd ''/a/bc'' [3] fmempty)), scheme = ''mem''\<rparr>)"
proof -
  let ?m = "\<lparr>Data = fmupd ''/a/b'' [1] (fmupd ''/a/b/c'' [2] (fmupd ''/a/bc'' [3] fmempty)),
             scheme = ''mem''\<rparr>"
  let ?u = "\<lparr>Scheme = ''mem'', Path = ''/a''\<rparr>"
  let ?ks = "[''/a/b'', ''/a/b/c'', ''/a/bc'']"
  let ?f = "\<lambda>k. \<lparr>Scheme = ''mem'', Path = k\<rparr>"
  have h1: "Path ?u \<noteq> []" by simp
  have h2: "[] |\<notin>| fmdom (Data ?m)" by simp
  have h3: "range_order (Data ?m) ?ks" by (simp add: range_order_def)
  have h4: "\<forall>k. k |\<in>| fmdom (Data ?m) \<and> is_listed (list_prefix (Path ?u)) k \<longrightarrow>
               ParseURI (scheme ?m @ ''://'' @ k) = Inr (?f k)"
    by (auto simp: ParseURI_def)
  have l: "filter (is_listed (list_prefix (Path ?u))) ?ks = [''/a/b'', ''/a/bc'']"
    by (simp add: is_listed_def list_prefix_def HasPrefix_def key_component_count_def
        component_count_def)
  show ?thesis
    using h1 h2 h3 List_lists_one_level [OF h1 h2 h3 h4] l by simp
qed

text \<open>
  Claim C4 as stated fails on the code in three ways, one part of the theorem below
  for each.

  It speaks of every store. \<open>Data\<close> is an exported field, and in a store that was
  given an entry under the empty key the loop evaluates \<open>p[len(p)-1]\<close> on that key:
  \<open>List\<close> panics, in whichever order the keys are visited, and returns no listing.

  It takes as prefix the path normalized to end with exactly one trailing \<open>/\<close>. The
  code appends \<open>/\<close> only when the path does not end with one and removes nothing. On
  the store with the one entry \<open>/a/b\<close>, listing the path \<open>/a//\<close> uses the prefix
  \<open>/a//\<close> and returns the empty listing, while the key \<open>/a/b\<close> meets the criterion
  for the normalized prefix \<open>/a/\<close>.

  It says that the URIs of the qualifying keys are returned. When the URI parser
  rejects the text built for a qualifying key, \<open>List\<close> returns that error and no
  listing: so with the key \<open>/a/b c\<close> under \<open>/a\<close> and a parser that rejects a space.
\<close>

theorem List_as_stated_counterexample:
  "Path \<lparr>Scheme = ''mem'', Path = ''/a''\<rparr> \<noteq> []
   \<and> range_order (Data \<lparr>Data = fmupd ''/a/b'' [1] (fmupd [] [2] fmempty), scheme = ''mem''\<rparr>)
        [''/a/b'', []]
   \<and> range_order (Data \<lparr>Data = fmupd ''/a/b'' [1] (fmupd [] [2] fmempty), scheme = ''mem''\<rparr>)
        [[], ''/a/b'']
   \<and> fst (List ParseURI [''/a/b'', []]
        \<lparr>Data = fmupd ''/a/b'' [1] (fmupd [] [2] fmempty), scheme = ''mem''\<rparr>
        \<lparr>Scheme = ''mem'', Path = ''/a''\<rparr>) = Inl IndexOutOfRange
   \<and> fst (List ParseURI [[], ''/a/b'']
        \<lparr>Data = fmupd ''/a/b'' [1] (fmupd [] [2] fmempty), scheme = ''mem''\<rparr>
        \<lparr>Scheme = ''mem'', Path = ''/a''\<rparr>) = Inl IndexOutOfRange
   \<and> Path \<lparr>Scheme = ''mem'', Path = ''/a//''\<rparr> \<noteq> []
   \<and> [] |\<notin>| fmdom (Data \<lparr>Data = fmupd ''/a/b'' [1] fmempty, scheme = ''mem''\<rparr>)
   \<and> range_order (Data \<lparr>Data = fmupd ''/a/b'' [1] fmempty, scheme = ''mem''\<rparr>) [''/a/b'']
   \<and> normalized_prefix ''/a//'' = ''/a/''
   \<and> is_listed (normalized_prefix ''/a//'') ''/a/b''
   \<and> ParseURI (''mem'' @ ''://'' @ ''/a/b'') = Inr \<lparr>Scheme = ''mem'', Path = ''/a/b''\<rparr>
   \<and> List ParseURI [''/a/b''] \<lparr>Data = fmupd ''/a/b'' [1] fmempty, scheme = ''mem''\<rparr>
         \<lparr>Scheme = ''mem'', Path = ''/a//''\<rparr>
       = (Inr ([], None), \<lparr>Data = fmupd ''/a/b'' [1] fmempty, scheme = ''mem''\<rparr>)
   \<and> [] |\<notin>| fmdom (Data \<lparr>Data = fmupd ''/a/b c'' [1] fmempty, scheme = ''mem''\<rparr>)
   \<and> range_order (Data \<lparr>Data = fmupd ''/a/b c'' [1] fmempty, scheme = ''mem''\<rparr>) [''/a/b c'']
   \<and> normalized_prefix ''/a'' = ''/a/''
   \<and> is_listed (normalized_prefix ''/a'') ''/a/b c''
   \<and> List ParseURI_no_space [''/a/b c''] \<lparr>Data = fmupd ''/a/b c'' [1] fmempty, scheme = ''mem''\<rparr>
         \<lparr>Scheme = ''mem'', Path = ''/a''\<rparr>
       = (Inr ([], Some (URIError ''mem:///a/b c'')),
          \<lparr>Data = fmupd ''/a/b c'' [1] fmempty, scheme = ''mem''\<rparr>)"
  by (auto simp: range_order_def List_def HasPrefix_def ParseURI_def ParseURI_no_space_def
      normalized_prefix_def is_listed_def key_component_count_def component_count_def)

text \<open>
  The two prefixes differ only on such paths: for a non-empty path that does not end
  with two separators, the normalized prefix is the prefix the code forms.
\<close>

lemma normalized_prefix_eq_list_prefix:
  assumes "pth \<noteq> []" and "\<not> (\<exists>q. pth = q @ ''//'')"
  shows "normalized_prefix pth = list_prefix pth"
proof (cases "last pth = CHR ''/''")
  case True
  define q where "q = butlast pth"
  have pth: "pth = q @ ''/''"
    using assms(1) True by (metis append_butlast_last_id q_def)
  have "q = [] \<or> last q \<noteq> CHR ''/''"
  proof (rule ccontr)
    assume "\<not> (q = [] \<or> last q \<noteq> CHR ''/'')"
    then have "q = butlast q @ ''/''"
      by (metis append_butlast_last_id)
    then have "pth = butlast q @ ''//''"
      using pth by (metis append.assoc append_Cons append_Nil)
    then show False using assms(2) by blast
  qed
  then have "dropWhile (\<lambda>c. c = CHR ''/'') (rev q) = rev q"
    by (cases q rule: rev_cases) auto
  then show ?thesis
    using True assms(1) by (simp add: normalized_prefix_def list_prefix_def pth)
next
  case False
  then have "dropWhile (\<lambda>c. c = CHR ''/'') (rev pth) = rev pth"
    using assms(1) by (cases pth rule: rev_cases) auto
  then show ?thesis
    using False by (simp add: normalized_prefix_def list_prefix_def)
qed

text \<open>
  The criterion selects the immediate children. For a prefix that ends with \<open>/\<close>, a key
  qualifies iff it is the prefix followed by one component without separator, which is
  not empty or is followed by one trailing separator. So \<open>/a/bc\<close> is listed under \<open>/a\<close>
  as a child of one level and \<open>/a/b/c\<close> is not.
\<close>

lemma HasPrefix_iff: "HasPrefix s pre \<longleftrightarrow> (\<exists>r. s = pre @ r)"
proof
  assume "HasPrefix s pre"
  then have "s = pre @ drop (length pre) s"
    by (metis HasPrefix_def append_take_drop_id)
  then show "\<exists>r. s = pre @ r" ..
next
  assume "\<exists>r. s = pre @ r"
  then show "HasPrefix s pre"
    by (auto simp: HasPrefix_def)
qed

lemma no_separator_iff: "length (filter (\<lambda>x. x = sep) s) = 0 \<longleftrightarrow> sep \<notin> set s"
  by (induction s) auto

lemma is_listed_iff_child:
  assumes "prefix \<noteq> []" and "last prefix = CHR ''/''"
  shows "is_listed prefix k \<longleftrightarrow>
           (\<exists>c. CHR ''/'' \<notin> set c \<and> (k = prefix @ c \<and> c \<noteq> [] \<or> k = prefix @ c @ ''/''))"
proof
  assume l: "is_listed prefix k"
  then obtain r where r: "k = prefix @ r"
    by (auto simp: is_listed_def HasPrefix_iff)
  have cnt: "key_component_count k = component_count prefix"
    using l by (simp add: is_listed_def)
  show "\<exists>c. CHR ''/'' \<notin> set c \<and> (k = prefix @ c \<and> c \<noteq> [] \<or> k = prefix @ c @ ''/'')"
  proof (cases "r = []")
    case True
    then show ?thesis
      using cnt r assms by (simp add: key_component_count_def component_count_def length_Split)
  next
    case False
    show ?thesis
    proof (cases "last r = CHR ''/''")
      case True
      then have rr: "r = butlast r @ ''/''"
        using False by (metis append_butlast_last_id)
      have "length (filter (\<lambda>x. x = CHR ''/'') r) = 1"
        using cnt r False True assms(1)
        by (simp add: key_component_count_def component_count_def length_Split)
      then have "length (filter (\<lambda>x. x = CHR ''/'') (butlast r)) = 0"
        by (subst (asm) rr) simp
      then have "CHR ''/'' \<notin> set (butlast r)"
        using no_separator_iff by metis
      then show ?thesis
        using r rr by metis
    next
      case True': False
      have "length (filter (\<lambda>x. x = CHR ''/'') r) = 0"
        using cnt r False True' assms(1)
        by (simp add: key_component_count_def component_count_def length_Split)
      then have "CHR ''/'' \<notin> set r"
        using no_separator_iff by metis
      then show ?thesis
        using r False by blast
    qed
  qed
next
  assume "\<exists>c. CHR ''/'' \<notin> set c \<and> (k = prefix @ c \<and> c \<noteq> [] \<or> k = prefix @ c @ ''/'')"
  then obtain c where c: "CHR ''/'' \<notin> set c"
    and k: "k = prefix @ c \<and> c \<noteq> [] \<or> k = prefix @ c @ ''/''"
    by blast
  have z: "filter (\<lambda>x. x = CHR ''/'') c = []"
    using c by (auto simp: filter_empty_conv)
  have nl: "c \<noteq> [] \<Longrightarrow> last c \<noteq> CHR ''/''"
    using c last_in_set by metis
  from k show "is_listed prefix k"
  proof
    assume "k = prefix @ c \<and> c \<noteq> []"
    then show ?thesis
      using z nl
      by (simp add: is_listed_def HasPrefix_def key_component_count_def component_count_def
          length_Split)
  next
    assume "k = prefix @ c @ ''/''"
    then show ?thesis
      using z
      by (simp add: is_listed_def HasPrefix_def key_component_count_def component_count_def
          length_Split)
  qed
qed

lemma list_prefix_ends_with_separator:
  "list_prefix pth \<noteq> [] \<and> last (list_prefix pth) = CHR ''/''"
  by (simp add: list_prefix_def)

end
